theory Spec2Isabelle
  imports Main "HOL-Library.Char_ord" "HOL-Library.List_Lexorder" "HOL-Library.Multiset"
begin

section \<open>The snippet store of omnisnip: data model\<close>

text \<open>
  The development embeds \<^verbatim>\<open>apps/cli/src/services/storage.service.ts\<close> and the
  types of \<^verbatim>\<open>packages/types/src\<close>.

  Strings are \<^typ>\<open>string\<close>; with \<^theory_text>\<open>Char_ord\<close> and
  \<^theory_text>\<open>List_Lexorder\<close> the order \<open><\<close> on them is the lexicographic order on
  character codes with a proper prefix below its extensions, which is how JavaScript's
  \<^verbatim>\<open><\<close> compares two strings. Characters are 8 bit wide here, so the model speaks
  about ASCII text: \<^verbatim>\<open>toLowerCase\<close> maps \<open>A\<close> .. \<open>Z\<close> to \<open>a\<close> .. \<open>z\<close> and
  leaves every other character alone.
\<close>

type_synonym UUID = string
type_synonym SnippetLanguage = string
type_synonym SnippetCategory = string

text \<open>
  \<^verbatim>\<open>type Timestamp = Date | string\<close>: a \<^verbatim>\<open>Date\<close> object in memory, an ISO 8601 string
  once serialised. Both carry an instant in milliseconds; \<open>IsoString t\<close> stands for the
  text \<^verbatim>\<open>new Date(t).toISOString()\<close>. The two forms of one instant are different
  values, as they are for a deep comparison in JavaScript. Every timestamp denotes an
  instant, as all those that the service writes do: a string that is no date is not
  modelled.
\<close>

datatype Timestamp = DateObj int | IsoString int

text \<open>\<^verbatim>\<open>new Date(v).getTime()\<close>\<close>

fun getTime :: "Timestamp \<Rightarrow> int" where
  "getTime (DateObj t) = t"
| "getTime (IsoString t) = t"

datatype SortOrder = Asc | Desc

datatype SnippetSortField = CreatedAt | UpdatedAt | Title | Language | Category | Favorite

record Snippet =
  snippet_id :: UUID
  title :: string
  description :: string
  code :: string
  language :: SnippetLanguage
  category :: SnippetCategory
  tags :: "string list"
  createdAt :: Timestamp
  updatedAt :: Timestamp
  favorite :: bool

text \<open>An optional property (\<^verbatim>\<open>tags?: string[]\<close>) is an \<open>option\<close>: \<open>None\<close> is \<^verbatim>\<open>undefined\<close>.\<close>

record CreateSnippetInput =
  c_title :: string
  c_description :: string
  c_code :: string
  c_language :: SnippetLanguage
  c_category :: SnippetCategory
  c_tags :: "string list option"
  c_favorite :: "bool option"

record UpdateSnippetInput =
  u_title :: "string option"
  u_description :: "string option"
  u_code :: "string option"
  u_language :: "SnippetLanguage option"
  u_category :: "SnippetCategory option"
  u_tags :: "string list option"
  u_favorite :: "bool option"

record SnippetSort =
  field :: SnippetSortField
  order :: SortOrder

record SnippetFilter =
  query :: "string option"
  f_language :: "SnippetLanguage option"
  f_category :: "SnippetCategory option"
  f_tags :: "string list option"
  f_favorite :: "bool option"
  sortBy :: "SnippetSortField option"
  sortOrder :: "SortOrder option"

text \<open>The default argument \<^verbatim>\<open>filter: SnippetFilter = {}\<close>.\<close>

definition no_criteria :: SnippetFilter where
  "no_criteria = \<lparr>query = None, f_language = None, f_category = None, f_tags = None,
     f_favorite = None, sortBy = None, sortOrder = None\<rparr>"

section \<open>Strings\<close>

definition lower_char :: "char \<Rightarrow> char" where
  "lower_char c =
     (let n = (of_char c :: nat) in if 65 \<le> n \<and> n \<le> 90 then char_of (n + 32) else c)"

definition toLowerCase :: "string \<Rightarrow> string" where
  "toLowerCase s = map lower_char s"

fun startsWith :: "string \<Rightarrow> string \<Rightarrow> bool" where
  "startsWith s [] = True"
| "startsWith [] (q # qs) = False"
| "startsWith (c # cs) (q # qs) = (c = q \<and> startsWith cs qs)"

text \<open>\<^verbatim>\<open>s.includes(q)\<close>: \<open>q\<close> occurs in \<open>s\<close> as a contiguous substring.\<close>

fun str_includes :: "string \<Rightarrow> string \<Rightarrow> bool" where
  "str_includes [] q = (q = [])"
| "str_includes (c # cs) q = (startsWith (c # cs) q \<or> str_includes cs q)"

section \<open>The backing file\<close>

text \<open>
  The store throws \<^verbatim>\<open>Error\<close> with one of three messages; the error kinds are named
  as the specification names them: \<^verbatim>\<open>Failed to create storage directory\<close>,
  \<^verbatim>\<open>Failed to write storage file\<close>, \<^verbatim>\<open>Failed to read storage file\<close>.
\<close>

datatype storage_error = StorageDirectoryError | StorageWriteError | StorageReadError

datatype errno = ENOENT | EACCES | EISDIR | EIO

text \<open>
  The text of the data file is kept as what \<^verbatim>\<open>JSON.parse\<close> makes of it: the array
  of records it denotes, or a \<^verbatim>\<open>SyntaxError\<close> for text that is not JSON.
\<close>

datatype file_text = Json "Snippet list" | Malformed string

datatype thrown = ErrnoException errno | SyntaxError

fun error_code :: "thrown \<Rightarrow> errno option" where
  "error_code (ErrnoException e) = Some e"
| "error_code SyntaxError = None"

text \<open>
  The state of the file system as far as the service sees it: what \<^verbatim>\<open>fs.readFile\<close>
  gives for the data file, and whether \<^verbatim>\<open>fs.mkdir\<close> and \<^verbatim>\<open>fs.writeFile\<close> reject.
\<close>

record Storage =
  dataFile :: "errno + file_text"
  mkdir_error :: "errno option"
  writeFile_error :: "errno option"

text \<open>
  \<^verbatim>\<open>JSON.stringify\<close> writes a \<^verbatim>\<open>Date\<close> through \<^verbatim>\<open>toJSON\<close>, as its ISO string; a
  timestamp that is a string already is written as it is.
\<close>

definition toJSON :: "Snippet \<Rightarrow> Snippet" where
  "toJSON s = s\<lparr>createdAt := IsoString (getTime (createdAt s)),
                 updatedAt := IsoString (getTime (updatedAt s))\<rparr>"

definition read_catch :: "thrown \<Rightarrow> storage_error + Snippet list" where
  "read_catch e = (if error_code e = Some ENOENT then Inr [] else Inl StorageReadError)"

definition readJSONFile :: "Storage \<Rightarrow> storage_error + Snippet list" where
  "readJSONFile st =
     (case dataFile st of
        Inl e \<Rightarrow> read_catch (ErrnoException e)
      | Inr (Malformed txt) \<Rightarrow> read_catch SyntaxError
      | Inr (Json data) \<Rightarrow> Inr data)"

definition ensureStoragePath :: "Storage \<Rightarrow> storage_error + unit" where
  "ensureStoragePath st =
     (case mkdir_error st of Some e \<Rightarrow> Inl StorageDirectoryError | None \<Rightarrow> Inr ())"

definition writeJSONFile :: "Storage \<Rightarrow> Snippet list \<Rightarrow> storage_error + Storage" where
  "writeJSONFile st data =
     (case ensureStoragePath st of
        Inl e \<Rightarrow> Inl e
      | Inr u \<Rightarrow>
          (case writeFile_error st of
             Some e \<Rightarrow> Inl StorageWriteError
           | None \<Rightarrow> Inr (st\<lparr>dataFile := Inr (Json (map toJSON data))\<rparr>)))"

section \<open>Operations of the storage service\<close>

text \<open>
  \<^verbatim>\<open>add\<close> calls \<^verbatim>\<open>uuidv4()\<close> once and \<^verbatim>\<open>new Date()\<close> twice; the three values
  come from outside the program and are arguments here: \<open>uuid\<close>, then the clock
  reading \<open>now1\<close> for \<^verbatim>\<open>createdAt\<close> and \<open>now2\<close> for \<^verbatim>\<open>updatedAt\<close>.
\<close>

definition newSnippet :: "UUID \<Rightarrow> int \<Rightarrow> int \<Rightarrow> CreateSnippetInput \<Rightarrow> Snippet" where
  "newSnippet uuid now1 now2 input =
     \<lparr>snippet_id = uuid,
      title = c_title input,
      description = c_description input,
      code = c_code input,
      language = c_language input,
      category = c_category input,
      tags = (case c_tags input of Some ts \<Rightarrow> ts | None \<Rightarrow> []),
      createdAt = DateObj now1,
      updatedAt = DateObj now2,
      favorite = (case c_favorite input of Some b \<Rightarrow> b | None \<Rightarrow> False)\<rparr>"

definition add ::
  "Storage \<Rightarrow> UUID \<Rightarrow> int \<Rightarrow> int \<Rightarrow> CreateSnippetInput \<Rightarrow> storage_error + (Snippet \<times> Storage)"
where
  "add st uuid now1 now2 input =
     (case readJSONFile st of
        Inl e \<Rightarrow> Inl e
      | Inr snippets \<Rightarrow>
          (case writeJSONFile st (snippets @ [newSnippet uuid now1 now2 input]) of
             Inl e \<Rightarrow> Inl e
           | Inr st' \<Rightarrow> Inr (newSnippet uuid now1 now2 input, st')))"

definition getAll :: "Storage \<Rightarrow> storage_error + Snippet list" where
  "getAll st = readJSONFile st"

definition getById :: "Storage \<Rightarrow> UUID \<Rightarrow> storage_error + Snippet option" where
  "getById st ident =
     (case readJSONFile st of
        Inl e \<Rightarrow> Inl e
      | Inr snippets \<Rightarrow> Inr (find (\<lambda>snippet. snippet_id snippet = ident) snippets))"

text \<open>\<^verbatim>\<open>Array.prototype.findIndex\<close>: the first index that satisfies \<open>P\<close>, or \<open>-1\<close>.\<close>

fun findIndex :: "('a \<Rightarrow> bool) \<Rightarrow> 'a list \<Rightarrow> int" where
  "findIndex P [] = - 1"
| "findIndex P (x # xs) =
     (if P x then 0 else (let i = findIndex P xs in if i = - 1 then - 1 else i + 1))"

text \<open>\<^verbatim>\<open>xs[i]\<close>, which is \<^verbatim>\<open>undefined\<close> outside the array.\<close>

definition at_index :: "'a list \<Rightarrow> int \<Rightarrow> 'a option" where
  "at_index xs i = (if 0 \<le> i \<and> i < int (length xs) then Some (xs ! nat i) else None)"

text \<open>
  The object literal of \<^verbatim>\<open>update\<close>: \<^verbatim>\<open>input.title ?? originalSnippet.title\<close> takes
  the input's value unless it is \<^verbatim>\<open>undefined\<close>; \<open>now\<close> is the reading of the clock.
\<close>

definition updatedSnippet :: "Snippet \<Rightarrow> UpdateSnippetInput \<Rightarrow> int \<Rightarrow> Snippet" where
  "updatedSnippet originalSnippet input now =
     \<lparr>snippet_id = snippet_id originalSnippet,
      title = (case u_title input of Some v \<Rightarrow> v | None \<Rightarrow> title originalSnippet),
      description =
        (case u_description input of Some v \<Rightarrow> v | None \<Rightarrow> description originalSnippet),
      code = (case u_code input of Some v \<Rightarrow> v | None \<Rightarrow> code originalSnippet),
      language = (case u_language input of Some v \<Rightarrow> v | None \<Rightarrow> language originalSnippet),
      category = (case u_category input of Some v \<Rightarrow> v | None \<Rightarrow> category originalSnippet),
      tags = (case u_tags input of Some v \<Rightarrow> v | None \<Rightarrow> tags originalSnippet),
      createdAt = createdAt originalSnippet,
      updatedAt = DateObj now,
      favorite = (case u_favorite input of Some v \<Rightarrow> v | None \<Rightarrow> favorite originalSnippet)\<rparr>"

definition update ::
  "Storage \<Rightarrow> int \<Rightarrow> UUID \<Rightarrow> UpdateSnippetInput \<Rightarrow> storage_error + (Snippet option \<times> Storage)"
where
  "update st now ident input =
     (case readJSONFile st of
        Inl e \<Rightarrow> Inl e
      | Inr snippets \<Rightarrow>
          (let index = findIndex (\<lambda>snippet. snippet_id snippet = ident) snippets in
           case at_index snippets index of
             None \<Rightarrow> Inr (None, st)
           | Some originalSnippet \<Rightarrow>
               if index = - 1 then Inr (None, st)
               else
                 (case writeJSONFile st
                         (snippets[nat index := updatedSnippet originalSnippet input now]) of
                    Inl e \<Rightarrow> Inl e
                  | Inr st' \<Rightarrow> Inr (Some (updatedSnippet originalSnippet input now), st'))))"

definition delete :: "Storage \<Rightarrow> UUID \<Rightarrow> storage_error + (bool \<times> Storage)" where
  "delete st ident =
     (case readJSONFile st of
        Inl e \<Rightarrow> Inl e
      | Inr snippets \<Rightarrow>
          (let filtered = filter (\<lambda>snippet. snippet_id snippet \<noteq> ident) snippets in
           if length filtered \<noteq> length snippets
           then (case writeJSONFile st filtered of
                   Inl e \<Rightarrow> Inl e
                 | Inr st' \<Rightarrow> Inr (True, st'))
           else Inr (False, st)))"

definition deleteAll :: "Storage \<Rightarrow> storage_error + Storage" where
  "deleteAll st = writeJSONFile st []"

subsection \<open>filter, sortSnippets and search\<close>

text \<open>
  The callback of \<^verbatim>\<open>snippets.filter\<close>: a chain of tests, each of which returns
  \<^verbatim>\<open>false\<close> early. A criterion that is \<^verbatim>\<open>undefined\<close>, and an empty string for
  \<^verbatim>\<open>query\<close>, \<^verbatim>\<open>language\<close> and \<^verbatim>\<open>category\<close> (which JavaScript counts as false),
  is skipped.
\<close>

definition matchesQuery :: "string \<Rightarrow> Snippet \<Rightarrow> bool" where
  "matchesQuery q snippet =
     (let lowerSearchQuery = toLowerCase q in
        str_includes (toLowerCase (title snippet)) lowerSearchQuery \<or>
        str_includes (toLowerCase (description snippet)) lowerSearchQuery \<or>
        str_includes (toLowerCase (code snippet)) lowerSearchQuery)"

definition hasMatchingTag :: "string list \<Rightarrow> Snippet \<Rightarrow> bool" where
  "hasMatchingTag ts snippet = list_ex (\<lambda>tag. List.member (tags snippet) tag) ts"

definition keep :: "SnippetFilter \<Rightarrow> Snippet \<Rightarrow> bool" where
  "keep f snippet =
     (if (case query f of None \<Rightarrow> False | Some q \<Rightarrow> q \<noteq> [] \<and> \<not> matchesQuery q snippet)
      then False
      else if (case f_language f of None \<Rightarrow> False | Some l \<Rightarrow> l \<noteq> [] \<and> language snippet \<noteq> l)
      then False
      else if (case f_category f of None \<Rightarrow> False | Some c \<Rightarrow> c \<noteq> [] \<and> category snippet \<noteq> c)
      then False
      else if (case f_tags f of None \<Rightarrow> False
               | Some ts \<Rightarrow> 0 < length ts \<and> \<not> hasMatchingTag ts snippet)
      then False
      else if (case f_favorite f of None \<Rightarrow> False | Some b \<Rightarrow> favorite snippet \<noteq> b)
      then False
      else True)"

text \<open>
  The value the comparator of \<^verbatim>\<open>sortSnippets\<close> compares, after its three
  conversions: a timestamp becomes its instant, a boolean becomes 0 or 1, a string is
  lower-cased.
\<close>

datatype sort_value = Num int | Str string

fun sort_val :: "SnippetSortField \<Rightarrow> Snippet \<Rightarrow> sort_value" where
  "sort_val CreatedAt a = Num (getTime (createdAt a))"
| "sort_val UpdatedAt a = Num (getTime (updatedAt a))"
| "sort_val Favorite a = Num (if favorite a then 1 else 0)"
| "sort_val Title a = Str (toLowerCase (title a))"
| "sort_val Language a = Str (toLowerCase (language a))"
| "sort_val Category a = Str (toLowerCase (category a))"

text \<open>
  \<^verbatim>\<open>aVal < bVal\<close>. Both values of one comparison come from the same field, so they
  are two numbers or two strings; the mixed case does not arise.
\<close>

fun js_less :: "sort_value \<Rightarrow> sort_value \<Rightarrow> bool" where
  "js_less (Num a) (Num b) = (a < b)"
| "js_less (Str a) (Str b) = (a < b)"
| "js_less (Num a) (Str b) = False"
| "js_less (Str a) (Num b) = False"

definition compareSnippets :: "SnippetSort \<Rightarrow> Snippet \<Rightarrow> Snippet \<Rightarrow> int" where
  "compareSnippets srt a b =
     (let aVal = sort_val (field srt) a;
          bVal = sort_val (field srt) b;
          comparison = (if js_less aVal bVal then - 1 else if js_less bVal aVal then 1 else 0)
      in if order srt = Asc then comparison else - comparison)"

text \<open>
  \<^verbatim>\<open>Array.prototype.sort\<close> with a comparator is a stable sort (ECMAScript 2019 and
  later). It is modelled by the stable insertion sort: an element goes in front of the
  first element of the sorted rest that the comparator does not put before it.
\<close>

fun insert_by :: "('a \<Rightarrow> 'a \<Rightarrow> int) \<Rightarrow> 'a \<Rightarrow> 'a list \<Rightarrow> 'a list" where
  "insert_by cmp x [] = [x]"
| "insert_by cmp x (y # ys) = (if cmp x y \<le> 0 then x # y # ys else y # insert_by cmp x ys)"

fun sort_by :: "('a \<Rightarrow> 'a \<Rightarrow> int) \<Rightarrow> 'a list \<Rightarrow> 'a list" where
  "sort_by cmp [] = []"
| "sort_by cmp (x # xs) = insert_by cmp x (sort_by cmp xs)"

definition sortSnippets :: "Snippet list \<Rightarrow> SnippetSort \<Rightarrow> Snippet list" where
  "sortSnippets snippets srt = sort_by (compareSnippets srt) snippets"

text \<open>
  \<^verbatim>\<open>filter\<close>. A \<^verbatim>\<open>sortBy\<close> that is present is one of six non-empty strings, so
  \<^verbatim>\<open>if (filter.sortBy)\<close> tests its presence; \<^verbatim>\<open>sortOrder ?? "asc"\<close> is the default.
\<close>

definition filter_snippets :: "Storage \<Rightarrow> SnippetFilter \<Rightarrow> storage_error + Snippet list" where
  "filter_snippets st f =
     (case readJSONFile st of
        Inl e \<Rightarrow> Inl e
      | Inr snippets \<Rightarrow>
          (let filtered = filter (keep f) snippets in
           case sortBy f of
             Some fld \<Rightarrow>
               Inr (sortSnippets filtered
                      \<lparr>field = fld, order = (case sortOrder f of Some ord \<Rightarrow> ord | None \<Rightarrow> Asc)\<rparr>)
           | None \<Rightarrow> Inr filtered))"

definition search :: "Storage \<Rightarrow> string \<Rightarrow> storage_error + Snippet list" where
  "search st searchQuery = filter_snippets st (no_criteria\<lparr>query := Some searchQuery\<rparr>)"

section \<open>Sequences of calls and sample data\<close>

text \<open>
  A caller that awaits \<^verbatim>\<open>add\<close> several times in a row. Each step carries the
  identifier and the two clock readings of its call; the first failing call ends the
  sequence.
\<close>

fun add_all ::
  "Storage \<Rightarrow> (UUID \<times> int \<times> int \<times> CreateSnippetInput) list \<Rightarrow>
     storage_error + (Snippet list \<times> Storage)"
where
  "add_all st [] = Inr ([], st)"
| "add_all st ((uuid, now1, now2, input) # rest) =
     (case add st uuid now1 now2 input of
        Inl e \<Rightarrow> Inl e
      | Inr (r, st') \<Rightarrow>
          (case add_all st' rest of
             Inl e \<Rightarrow> Inl e
           | Inr (rs, st'') \<Rightarrow> Inr (r # rs, st'')))"

text \<open>The record that one step of such a sequence creates.\<close>

definition mk_step :: "UUID \<times> int \<times> int \<times> CreateSnippetInput \<Rightarrow> Snippet" where
  "mk_step = (\<lambda>(uuid, now1, now2, input). newSnippet uuid now1 now2 input)"




text \<open>A record as it is read back from the file, and a creation input, for the examples.\<close>

definition stored_snippet :: "UUID \<Rightarrow> string \<Rightarrow> string list \<Rightarrow> int \<Rightarrow> Snippet" where
  "stored_snippet ident ttl tgs t =
     \<lparr>snippet_id = ident, title = ttl, description = ''Before update'',
      code = ''const x = 1;'', language = ''javascript'', category = ''utility'',
      tags = tgs, createdAt = IsoString t, updatedAt = IsoString t, favorite = False\<rparr>"

definition sample_input :: "string \<Rightarrow> CreateSnippetInput" where
  "sample_input ttl =
     \<lparr>c_title = ttl, c_description = ''Bla bla'', c_code = ''let alpha = 0.1;'',
      c_language = ''javascript'', c_category = ''config'', c_tags = None, c_favorite = None\<rparr>"

text \<open>A store whose file holds the given records, and one that was never written.\<close>

definition store_of :: "Snippet list \<Rightarrow> Storage" where
  "store_of snippets = \<lparr>dataFile = Inr (Json snippets), mkdir_error = None, writeFile_error = None\<rparr>"

definition fresh_store :: Storage where
  "fresh_store = \<lparr>dataFile = Inl ENOENT, mkdir_error = None, writeFile_error = None\<rparr>"

section \<open>Reading, filtering and searching\<close>

text \<open>\<open>str_includes\<close> is the substring test.\<close>

lemma startsWith_iff: "startsWith s q \<longleftrightarrow> (\<exists>r. s = q @ r)"
  by (induction s q rule: startsWith.induct) auto

lemma str_includes_iff: "str_includes s q \<longleftrightarrow> (\<exists>p r. s = p @ q @ r)"
proof (induction s)
  case Nil
  then show ?case by auto
next
  case (Cons c cs)
  show ?case
  proof
    assume "str_includes (c # cs) q"
    then consider "startsWith (c # cs) q" | "str_includes cs q" by auto
    then show "\<exists>p r. c # cs = p @ q @ r"
    proof cases
      case 1
      then obtain r where "c # cs = [] @ q @ r" by (auto simp add: startsWith_iff)
      then show ?thesis by blast
    next
      case 2
      with Cons obtain p r where "cs = p @ q @ r" by blast
      then have "c # cs = (c # p) @ q @ r" by simp
      then show ?thesis by blast
    qed
  next
    assume "\<exists>p r. c # cs = p @ q @ r"
    then obtain p r where pr: "c # cs = p @ q @ r" by blast
    show "str_includes (c # cs) q"
    proof (cases p)
      case Nil
      with pr have "startsWith (c # cs) q" by (auto simp add: startsWith_iff)
      then show ?thesis by simp
    next
      case (Cons a p')
      with pr have "cs = p' @ q @ r" by simp
      with Cons.IH have "str_includes cs q" by blast
      then show ?thesis by simp
    qed
  qed
qed

text \<open>The search of the tests, run on two records: the match ignores case.\<close>

lemma search_example:
  "search (store_of [stored_snippet ''1'' ''React useState Hook'' [''react''] 1,
                     stored_snippet ''2'' ''Python List'' [''python''] 2]) ''REACT'' =
     Inr [stored_snippet ''1'' ''React useState Hook'' [''react''] 1]"
  by code_simp

lemma filter_snippets_cong:
  assumes "keep f = keep g" and "sortBy f = sortBy g" and "sortOrder f = sortOrder g"
  shows "filter_snippets st f = filter_snippets st g"
  unfolding filter_snippets_def assms by (rule refl)

lemma keep_no_criteria: "keep no_criteria s"
  by (simp add: keep_def no_criteria_def)

lemma filter_unsorted:
  assumes "readJSONFile st = Inr snippets" and "sortBy f = None"
  shows "filter_snippets st f = Inr (filter (keep f) snippets)"
  using assms by (simp add: filter_snippets_def)

lemma filter_snippets_no_criteria: "filter_snippets st no_criteria = readJSONFile st"
proof (cases "readJSONFile st")
  case (Inl e)
  then show ?thesis by (simp add: filter_snippets_def)
next
  case (Inr snippets)
  have "sortBy no_criteria = None" by (simp add: no_criteria_def)
  with Inr show ?thesis by (simp add: filter_unsorted keep_no_criteria)
qed

lemma keep_empty_query: "keep (f\<lparr>query := Some []\<rparr>) = keep (f\<lparr>query := None\<rparr>)"
  by (rule ext) (simp add: keep_def)

lemma keep_empty_tags: "keep (f\<lparr>f_tags := Some []\<rparr>) = keep (f\<lparr>f_tags := None\<rparr>)"
  by (rule ext) (simp add: keep_def)

lemma hasMatchingTag_iff:
  "hasMatchingTag ts s \<longleftrightarrow> (\<exists>tag. tag \<in> set ts \<and> tag \<in> set (tags s))"
  by (auto simp add: hasMatchingTag_def list_ex_iff)

lemma keep_tags:
  "ts \<noteq> [] \<Longrightarrow>
   keep (f\<lparr>f_tags := Some ts\<rparr>) s \<longleftrightarrow>
     keep (f\<lparr>f_tags := None\<rparr>) s \<and> (\<exists>tag. tag \<in> set ts \<and> tag \<in> set (tags s))"
  by (simp add: keep_def hasMatchingTag_iff)

text \<open>
  C6. \<^verbatim>\<open>getAll\<close> on a store whose data file does not exist returns the empty
  sequence; on a data file whose text is not JSON it fails with the read error, and
  returns no data at all.
\<close>

theorem getAll_missing_or_corrupt:
  "getAll (st\<lparr>dataFile := Inl ENOENT\<rparr>) = Inr [] \<and>
   getAll (st\<lparr>dataFile := Inr (Malformed txt)\<rparr>) = Inl StorageReadError"
  by (simp add: getAll_def readJSONFile_def read_catch_def)

text \<open>
  C3. For every text and every store, \<^verbatim>\<open>search(text)\<close> gives what \<^verbatim>\<open>filter\<close> gives
  for the criteria whose only field is \<^verbatim>\<open>query: text\<close>: the same records in the same
  order, or the same error.
\<close>

theorem search_is_filter_query:
  "search st text =
     filter_snippets st \<lparr>query = Some text, f_language = None, f_category = None,
       f_tags = None, f_favorite = None, sortBy = None, sortOrder = None\<rparr>"
  by (simp add: search_def no_criteria_def)

text \<open>
  C9. \<^verbatim>\<open>filter\<close> with no criteria returns what \<^verbatim>\<open>getAll\<close> returns: the whole
  collection in file order.
\<close>

theorem filter_no_criteria_is_getAll:
  "filter_snippets st no_criteria = getAll st"
  by (simp add: filter_snippets_no_criteria getAll_def)

text \<open>
  C10. An empty query string filters nothing: a record passes the criteria with
  \<^verbatim>\<open>query: ""\<close> exactly when it passes them without \<^verbatim>\<open>query\<close>, so the two calls of
  \<^verbatim>\<open>filter\<close> agree, and \<^verbatim>\<open>search("")\<close> returns the whole collection.
\<close>

theorem filter_empty_query:
  "keep (f\<lparr>query := Some ''''\<rparr>) s = keep (f\<lparr>query := None\<rparr>) s \<and>
   filter_snippets st (f\<lparr>query := Some ''''\<rparr>) = filter_snippets st (f\<lparr>query := None\<rparr>) \<and>
   search st '''' = getAll st"
proof -
  have "filter_snippets st (f\<lparr>query := Some ''''\<rparr>) = filter_snippets st (f\<lparr>query := None\<rparr>)"
    by (rule filter_snippets_cong) (simp_all add: keep_empty_query)
  moreover have "search st '''' = getAll st"
  proof -
    have "no_criteria\<lparr>query := None\<rparr> = no_criteria" by (simp add: no_criteria_def)
    then have "filter_snippets st (no_criteria\<lparr>query := Some ''''\<rparr>) = filter_snippets st no_criteria"
      using filter_snippets_cong [of "no_criteria\<lparr>query := Some ''''\<rparr>" "no_criteria\<lparr>query := None\<rparr>" st]
      by (simp add: keep_empty_query)
    then show ?thesis by (simp add: search_def filter_snippets_no_criteria getAll_def)
  qed
  ultimately show ?thesis by (simp add: keep_empty_query)
qed

text \<open>
  C4. With a non-empty \<^verbatim>\<open>tags\<close> criterion a record passes exactly when it passes the
  other criteria and has at least one tag of the criterion; with \<^verbatim>\<open>tags\<close> as the only
  criterion, \<^verbatim>\<open>filter\<close> returns the records that share a tag with it, in file order.
  An empty \<^verbatim>\<open>tags\<close> sequence gives the same result as no \<^verbatim>\<open>tags\<close> criterion.
\<close>

theorem filter_tags_or:
  assumes "ts \<noteq> []"
  shows "(keep (f\<lparr>f_tags := Some ts\<rparr>) s \<longleftrightarrow>
            keep (f\<lparr>f_tags := None\<rparr>) s \<and> (\<exists>tag. tag \<in> set ts \<and> tag \<in> set (tags s))) \<and>
         (readJSONFile st = Inr snippets \<longrightarrow>
            filter_snippets st (no_criteria\<lparr>f_tags := Some ts\<rparr>) =
              Inr (filter (\<lambda>s. \<exists>tag. tag \<in> set ts \<and> tag \<in> set (tags s)) snippets)) \<and>
         filter_snippets st (f\<lparr>f_tags := Some []\<rparr>) = filter_snippets st (f\<lparr>f_tags := None\<rparr>)"
proof (intro conjI impI)
  show "keep (f\<lparr>f_tags := Some ts\<rparr>) s \<longleftrightarrow>
            keep (f\<lparr>f_tags := None\<rparr>) s \<and> (\<exists>tag. tag \<in> set ts \<and> tag \<in> set (tags s))"
    using assms by (rule keep_tags)
next
  assume r: "readJSONFile st = Inr snippets"
  have n: "no_criteria\<lparr>f_tags := None\<rparr> = no_criteria" by (simp add: no_criteria_def)
  have "keep (no_criteria\<lparr>f_tags := Some ts\<rparr>) = (\<lambda>s. \<exists>tag. tag \<in> set ts \<and> tag \<in> set (tags s))"
    using assms by (intro ext) (simp add: keep_tags n keep_no_criteria)
  moreover have "sortBy (no_criteria\<lparr>f_tags := Some ts\<rparr>) = None"
    by (simp add: no_criteria_def)
  ultimately show "filter_snippets st (no_criteria\<lparr>f_tags := Some ts\<rparr>) =
              Inr (filter (\<lambda>s. \<exists>tag. tag \<in> set ts \<and> tag \<in> set (tags s)) snippets)"
    using r by (simp add: filter_unsorted)
next
  show "filter_snippets st (f\<lparr>f_tags := Some []\<rparr>) = filter_snippets st (f\<lparr>f_tags := None\<rparr>)"
    by (rule filter_snippets_cong) (simp_all add: keep_empty_tags)
qed

theorem filter_tags_or_witness:
  "[''a'', ''b''] \<noteq> [] \<and>
   readJSONFile (store_of [stored_snippet ''1'' ''One'' [''a''] 1,
                           stored_snippet ''2'' ''Two'' [''c'', ''b''] 2,
                           stored_snippet ''3'' ''Three'' [''c''] 3]) =
     Inr [stored_snippet ''1'' ''One'' [''a''] 1,
          stored_snippet ''2'' ''Two'' [''c'', ''b''] 2,
          stored_snippet ''3'' ''Three'' [''c''] 3] \<and>
   filter_snippets
     (store_of [stored_snippet ''1'' ''One'' [''a''] 1,
                stored_snippet ''2'' ''Two'' [''c'', ''b''] 2,
                stored_snippet ''3'' ''Three'' [''c''] 3])
     (no_criteria\<lparr>f_tags := Some [''a'', ''b'']\<rparr>) =
     Inr [stored_snippet ''1'' ''One'' [''a''] 1, stored_snippet ''2'' ''Two'' [''c'', ''b''] 2]"
proof -
  let ?xs = "[stored_snippet ''1'' ''One'' [''a''] 1,
              stored_snippet ''2'' ''Two'' [''c'', ''b''] 2,
              stored_snippet ''3'' ''Three'' [''c''] 3]"
  have ne: "[''a'', ''b''] \<noteq> ([] :: string list)" by simp
  have r: "readJSONFile (store_of ?xs) = Inr ?xs"
    by (simp add: readJSONFile_def store_of_def)
  have t: "tags (stored_snippet i ttl tgs t) = tgs" for i ttl tgs t
    by (simp add: stored_snippet_def)
  from filter_tags_or [OF ne, of no_criteria "stored_snippet ''1'' ''One'' [''a''] 1" "store_of ?xs" ?xs] r
  show ?thesis by (simp add: t conj_disj_distribR ex_disj_distrib)
qed

section \<open>Writing, reading back and add\<close>

lemma writeJSONFile_ok:
  "mkdir_error st = None \<Longrightarrow> writeFile_error st = None \<Longrightarrow>
   writeJSONFile st data = Inr (st\<lparr>dataFile := Inr (Json (map toJSON data))\<rparr>)"
  by (simp add: writeJSONFile_def ensureStoragePath_def)

lemma writeJSONFile_Inr:
  "writeJSONFile st data = Inr st' \<Longrightarrow>
   st' = st\<lparr>dataFile := Inr (Json (map toJSON data))\<rparr> \<and> mkdir_error st = None \<and>
   writeFile_error st = None"
  by (auto simp add: writeJSONFile_def ensureStoragePath_def split: option.splits)

lemma readJSONFile_Json: "readJSONFile (st\<lparr>dataFile := Inr (Json xs)\<rparr>) = Inr xs"
  by (simp add: readJSONFile_def)

lemma toJSON_idem: "toJSON (toJSON s) = toJSON s"
  by (simp add: toJSON_def)

text \<open>A record whose timestamps are strings already is written back unchanged.\<close>

lemma toJSON_stored:
  "createdAt s = IsoString t \<Longrightarrow> updatedAt s = IsoString t' \<Longrightarrow> toJSON s = s"
  by (simp add: toJSON_def)

lemma snippet_id_toJSON: "snippet_id (toJSON s) = snippet_id s"
  by (simp add: toJSON_def)

lemma find_append_fresh:
  "find P xs = None \<Longrightarrow> P y \<Longrightarrow> find P (xs @ [y]) = Some y"
  by (induction xs) (auto split: if_splits)

lemma find_map_toJSON_id:
  "find (\<lambda>s. snippet_id s = i) (map toJSON xs) = map_option toJSON (find (\<lambda>s. snippet_id s = i) xs)"
  by (induction xs) (simp_all add: snippet_id_toJSON)

lemma add_Inr:
  assumes "add st uuid now1 now2 x = Inr (r, st')"
  shows "\<exists>snippets. readJSONFile st = Inr snippets \<and> r = newSnippet uuid now1 now2 x \<and>
           st' = st\<lparr>dataFile := Inr (Json (map toJSON (snippets @ [r])))\<rparr> \<and>
           mkdir_error st = None \<and> writeFile_error st = None"
proof (cases "readJSONFile st")
  case (Inl e)
  with assms show ?thesis by (simp add: add_def)
next
  case (Inr snippets)
  let ?n = "newSnippet uuid now1 now2 x"
  from assms Inr have w: "(case writeJSONFile st (snippets @ [?n]) of Inl e \<Rightarrow> Inl e
      | Inr st' \<Rightarrow> Inr (?n, st')) = Inr (r, st')"
    by (simp add: add_def)
  then obtain st2 where st2: "writeJSONFile st (snippets @ [?n]) = Inr st2"
    by (cases "writeJSONFile st (snippets @ [?n])") simp_all
  with w have "r = ?n" "st' = st2" by simp_all
  with st2 Inr writeJSONFile_Inr [OF st2] show ?thesis by simp
qed

lemma add_ok:
  assumes "readJSONFile st = Inr snippets" and "mkdir_error st = None" and "writeFile_error st = None"
  shows "add st uuid now1 now2 x =
     Inr (newSnippet uuid now1 now2 x,
          st\<lparr>dataFile := Inr (Json (map toJSON snippets @ [toJSON (newSnippet uuid now1 now2 x)]))\<rparr>)"
  using assms by (simp add: add_def writeJSONFile_ok)

lemma toJSON_newSnippet:
  "toJSON (newSnippet uuid now1 now2 x) =
     (newSnippet uuid now1 now2 x)\<lparr>createdAt := IsoString now1, updatedAt := IsoString now2\<rparr>"
  by (simp add: newSnippet_def toJSON_def)

text \<open>
  C1, as the code has it. When \<^verbatim>\<open>add\<close> returns the record \<open>r\<close> and its identifier
  was not in the store before, \<^verbatim>\<open>getById\<close> of that identifier returns \<open>r\<close> as it was
  serialised: every field equal to that of \<open>r\<close>, except that \<^verbatim>\<open>createdAt\<close> and
  \<^verbatim>\<open>updatedAt\<close> are the ISO strings of the instants that \<open>r\<close> holds as \<^verbatim>\<open>Date\<close>
  objects.
\<close>

theorem add_then_getById:
  assumes "add st uuid now1 now2 x = Inr (r, st')"
      and "getById st uuid = Inr None"
  shows "getById st' (snippet_id r) =
           Inr (Some (r\<lparr>createdAt := IsoString now1, updatedAt := IsoString now2\<rparr>)) \<and>
         createdAt r = DateObj now1 \<and> updatedAt r = DateObj now2"
proof -
  from add_Inr [OF assms(1)] obtain snippets where
    rd: "readJSONFile st = Inr snippets" and
    r: "r = newSnippet uuid now1 now2 x" and
    st': "st' = st\<lparr>dataFile := Inr (Json (map toJSON (snippets @ [r])))\<rparr>"
    by blast
  from assms(2) rd have "find (\<lambda>s. snippet_id s = uuid) snippets = None"
    by (simp add: getById_def)
  then have "find (\<lambda>s. snippet_id s = uuid) (map toJSON snippets) = None"
    by (simp add: find_map_toJSON_id)
  moreover have id: "snippet_id r = uuid" by (simp add: r newSnippet_def)
  ultimately have "find (\<lambda>s. snippet_id s = uuid) (map toJSON snippets @ [toJSON r]) = Some (toJSON r)"
    by (intro find_append_fresh) (simp_all add: snippet_id_toJSON)
  then have "getById st' (snippet_id r) = Inr (Some (toJSON r))"
    by (simp add: getById_def st' readJSONFile_Json id)
  then show ?thesis by (simp add: r toJSON_newSnippet) (simp add: newSnippet_def)
qed

theorem add_then_getById_witness:
  "add fresh_store ''id-1'' 1000 1000 (sample_input ''Find Me'') =
     Inr (\<lparr>snippet_id = ''id-1'', title = ''Find Me'', description = ''Bla bla'',
           code = ''let alpha = 0.1;'', language = ''javascript'', category = ''config'',
           tags = [], createdAt = DateObj 1000, updatedAt = DateObj 1000, favorite = False\<rparr>,
          store_of [\<lparr>snippet_id = ''id-1'', title = ''Find Me'', description = ''Bla bla'',
           code = ''let alpha = 0.1;'', language = ''javascript'', category = ''config'',
           tags = [], createdAt = IsoString 1000, updatedAt = IsoString 1000, favorite = False\<rparr>]) \<and>
   getById fresh_store ''id-1'' = Inr None \<and>
   getById (store_of [\<lparr>snippet_id = ''id-1'', title = ''Find Me'', description = ''Bla bla'',
           code = ''let alpha = 0.1;'', language = ''javascript'', category = ''config'',
           tags = [], createdAt = IsoString 1000, updatedAt = IsoString 1000, favorite = False\<rparr>])
      ''id-1'' =
     Inr (Some \<lparr>snippet_id = ''id-1'', title = ''Find Me'', description = ''Bla bla'',
           code = ''let alpha = 0.1;'', language = ''javascript'', category = ''config'',
           tags = [], createdAt = IsoString 1000, updatedAt = IsoString 1000, favorite = False\<rparr>)"
proof -
  let ?r = "\<lparr>snippet_id = ''id-1'', title = ''Find Me'', description = ''Bla bla'',
           code = ''let alpha = 0.1;'', language = ''javascript'', category = ''config'',
           tags = [], createdAt = DateObj 1000, updatedAt = DateObj 1000, favorite = False\<rparr>"
  let ?j = "\<lparr>snippet_id = ''id-1'', title = ''Find Me'', description = ''Bla bla'',
           code = ''let alpha = 0.1;'', language = ''javascript'', category = ''config'',
           tags = [], createdAt = IsoString 1000, updatedAt = IsoString 1000, favorite = False\<rparr>"
  have a: "add fresh_store ''id-1'' 1000 1000 (sample_input ''Find Me'') = Inr (?r, store_of [?j])"
    by (simp add: add_def newSnippet_def readJSONFile_def read_catch_def fresh_store_def
        writeJSONFile_def ensureStoragePath_def sample_input_def toJSON_def store_of_def)
  have g: "getById fresh_store ''id-1'' = Inr None"
    by (simp add: getById_def readJSONFile_def read_catch_def fresh_store_def)
  from add_then_getById [OF a g] a g show ?thesis by simp
qed

text \<open>
  The round trip does not give deep equality: on a store that was never written, the
  record read back by \<^verbatim>\<open>getById\<close> differs from the record that \<^verbatim>\<open>add\<close> returned
  in its two timestamp fields.
\<close>

theorem add_then_getById_counterexample:
  "add fresh_store ''id-1'' 1000 1000 (sample_input ''Find Me'') =
     Inr (\<lparr>snippet_id = ''id-1'', title = ''Find Me'', description = ''Bla bla'',
           code = ''let alpha = 0.1;'', language = ''javascript'', category = ''config'',
           tags = [], createdAt = DateObj 1000, updatedAt = DateObj 1000, favorite = False\<rparr>,
          store_of [\<lparr>snippet_id = ''id-1'', title = ''Find Me'', description = ''Bla bla'',
           code = ''let alpha = 0.1;'', language = ''javascript'', category = ''config'',
           tags = [], createdAt = IsoString 1000, updatedAt = IsoString 1000, favorite = False\<rparr>]) \<and>
   getById (store_of [\<lparr>snippet_id = ''id-1'', title = ''Find Me'', description = ''Bla bla'',
           code = ''let alpha = 0.1;'', language = ''javascript'', category = ''config'',
           tags = [], createdAt = IsoString 1000, updatedAt = IsoString 1000, favorite = False\<rparr>])
      ''id-1'' \<noteq>
     Inr (Some \<lparr>snippet_id = ''id-1'', title = ''Find Me'', description = ''Bla bla'',
           code = ''let alpha = 0.1;'', language = ''javascript'', category = ''config'',
           tags = [], createdAt = DateObj 1000, updatedAt = DateObj 1000, favorite = False\<rparr>)"
  by (simp add: add_def newSnippet_def getById_def readJSONFile_def read_catch_def fresh_store_def
      writeJSONFile_def ensureStoragePath_def sample_input_def toJSON_def store_of_def)

lemma newSnippet_fields:
  "snippet_id (newSnippet uuid now1 now2 x) = uuid"
  "title (newSnippet uuid now1 now2 x) = c_title x"
  "description (newSnippet uuid now1 now2 x) = c_description x"
  "code (newSnippet uuid now1 now2 x) = c_code x"
  "language (newSnippet uuid now1 now2 x) = c_language x"
  "category (newSnippet uuid now1 now2 x) = c_category x"
  "tags (newSnippet uuid now1 now2 x) = (case c_tags x of Some ts \<Rightarrow> ts | None \<Rightarrow> [])"
  "favorite (newSnippet uuid now1 now2 x) = (case c_favorite x of Some b \<Rightarrow> b | None \<Rightarrow> False)"
  "createdAt (newSnippet uuid now1 now2 x) = DateObj now1"
  "updatedAt (newSnippet uuid now1 now2 x) = DateObj now2"
  by (simp_all add: newSnippet_def)

lemma add_all_ok:
  assumes "readJSONFile st = Inr snippets" and "mkdir_error st = None" and "writeFile_error st = None"
  shows "\<exists>st'. add_all st steps = Inr (map mk_step steps, st') \<and>
           readJSONFile st' =
             Inr ((if steps = [] then snippets else map toJSON snippets) @ map (toJSON \<circ> mk_step) steps)"
  using assms
proof (induction steps arbitrary: st snippets)
  case Nil
  then show ?case by simp
next
  case (Cons step steps)
  obtain uuid now1 now2 x where step: "step = (uuid, now1, now2, x)"
    by (cases step) auto
  let ?r = "newSnippet uuid now1 now2 x"
  let ?st = "st\<lparr>dataFile := Inr (Json (map toJSON snippets @ [toJSON ?r]))\<rparr>"
  have a: "add st uuid now1 now2 x = Inr (?r, ?st)"
    using Cons.prems by (rule add_ok)
  have "readJSONFile ?st = Inr (map toJSON snippets @ [toJSON ?r])"
    by (rule readJSONFile_Json)
  moreover have "mkdir_error ?st = None" "writeFile_error ?st = None"
    using Cons.prems by simp_all
  ultimately obtain st' where
    st': "add_all ?st steps = Inr (map mk_step steps, st')" and
    rd: "readJSONFile st' =
        Inr ((if steps = [] then map toJSON snippets @ [toJSON ?r]
              else map toJSON (map toJSON snippets @ [toJSON ?r])) @ map (toJSON \<circ> mk_step) steps)"
    using Cons.IH by blast
  have "map toJSON (map toJSON snippets @ [toJSON ?r]) = map toJSON snippets @ [toJSON ?r]"
    by (simp add: toJSON_idem)
  with rd have "readJSONFile st' =
      Inr (map toJSON snippets @ map (toJSON \<circ> mk_step) (step # steps))"
    by (simp add: step mk_step_def)
  moreover have "add_all st (step # steps) = Inr (map mk_step (step # steps), st')"
    by (simp add: step a st' mk_step_def)
  ultimately show ?case by simp
qed








section \<open>delete\<close>

lemma length_filter_neq_iff:
  "length (filter (\<lambda>s. f s \<noteq> i) xs) \<noteq> length xs \<longleftrightarrow> find (\<lambda>s. f s = i) xs \<noteq> None"
proof (induction xs)
  case Nil
  then show ?case by simp
next
  case (Cons x xs)
  have "length (filter (\<lambda>s. f s \<noteq> i) xs) \<noteq> Suc (length xs)"
    using length_filter_le [of "\<lambda>s. f s \<noteq> i" xs] by linarith
  with Cons show ?case by auto
qed

lemma filter_neq_remove1:
  "distinct (map f xs) \<Longrightarrow> find (\<lambda>s. f s = i) xs = Some x \<Longrightarrow>
   filter (\<lambda>s. f s \<noteq> i) xs = remove1 x xs"
proof (induction xs)
  case Nil
  then show ?case by simp
next
  case (Cons y ys)
  show ?case
  proof (cases "f y = i")
    case True
    with Cons.prems have "x = y" by simp
    moreover from True Cons.prems(1) have "i \<notin> f ` set ys" by simp
    then have "\<forall>s \<in> set ys. f s \<noteq> i" by blast
    then have "filter (\<lambda>s. f s \<noteq> i) ys = ys" by (simp add: filter_id_conv)
    ultimately show ?thesis using True by simp
  next
    case False
    with Cons.prems have "find (\<lambda>s. f s = i) ys = Some x" by simp
    moreover from this have "f x = i" by (auto simp add: find_Some_iff)
    ultimately show ?thesis using False Cons by auto
  qed
qed

lemma find_Some_length_remove1:
  "find P xs = Some x \<Longrightarrow> length (remove1 x xs) + 1 = length xs"
proof -
  assume "find P xs = Some x"
  then have "x \<in> set xs" by (auto simp add: find_Some_iff)
  then show ?thesis by (simp add: length_remove1) (cases xs, auto)
qed

lemma remove1_first_match:
  "find P xs = Some x \<Longrightarrow>
   remove1 x xs =
     take (length (takeWhile (\<lambda>y. \<not> P y) xs)) xs @
     drop (Suc (length (takeWhile (\<lambda>y. \<not> P y) xs))) xs"
proof (induction xs)
  case Nil
  then show ?case by simp
next
  case (Cons y ys)
  show ?case
  proof (cases "P y")
    case True
    with Cons.prems show ?thesis by simp
  next
    case False
    with Cons.prems have f: "find P ys = Some x" by simp
    then have "P x" by (auto simp add: find_Some_iff)
    with False have "x \<noteq> y" by blast
    with False Cons.IH [OF f] show ?thesis by simp
  qed
qed

lemma delete_not_found:
  assumes "readJSONFile st = Inr snippets" and "find (\<lambda>s. snippet_id s = ident) snippets = None"
  shows "delete st ident = Inr (False, st)"
proof -
  from assms(2) have "length (filter (\<lambda>s. snippet_id s \<noteq> ident) snippets) = length snippets"
    using length_filter_neq_iff [of snippet_id ident snippets] by simp
  then show ?thesis by (simp add: delete_def assms(1))
qed

lemma delete_found:
  assumes "readJSONFile st = Inr snippets" and "find (\<lambda>s. snippet_id s = ident) snippets \<noteq> None"
      and "mkdir_error st = None" and "writeFile_error st = None"
  shows "delete st ident =
     Inr (True, st\<lparr>dataFile :=
            Inr (Json (map toJSON (filter (\<lambda>s. snippet_id s \<noteq> ident) snippets)))\<rparr>)"
proof -
  from assms(2) have "length (filter (\<lambda>s. snippet_id s \<noteq> ident) snippets) \<noteq> length snippets"
    using length_filter_neq_iff [of snippet_id ident snippets] by simp
  then show ?thesis by (simp add: delete_def assms(1,3,4) writeJSONFile_ok)
qed

text \<open>
  C5. The identifiers of a collection are pairwise distinct (the invariant of the data
  model). On such a collection: if no record has the identifier, \<^verbatim>\<open>delete\<close> returns
  \<^verbatim>\<open>false\<close> and leaves the store as it is, whether or not the file could be written,
  so the collection and its length are unchanged. If \<open>x\<close> is the first record with the
  identifier and the file can be written, \<^verbatim>\<open>delete\<close> returns \<^verbatim>\<open>true\<close> and the file
  holds the collection without \<open>x\<close>: the records before the first match followed by
  the records after it, one record fewer.
\<close>

theorem delete_removes_first:
  assumes "readJSONFile st = Inr snippets" and "distinct (map snippet_id snippets)"
  shows "(find (\<lambda>s. snippet_id s = ident) snippets = None \<longrightarrow>
            delete st ident = Inr (False, st) \<and> getAll st = Inr snippets) \<and>
         (find (\<lambda>s. snippet_id s = ident) snippets = Some x \<and> mkdir_error st = None \<and>
            writeFile_error st = None \<longrightarrow>
            (delete st ident =
                 Inr (True, st\<lparr>dataFile := Inr (Json (map toJSON (remove1 x snippets)))\<rparr>) \<and>
               getAll (st\<lparr>dataFile := Inr (Json (map toJSON (remove1 x snippets)))\<rparr>) =
                 Inr (map toJSON (remove1 x snippets)) \<and>
               remove1 x snippets =
                 take (length (takeWhile (\<lambda>s. snippet_id s \<noteq> ident) snippets)) snippets @
                 drop (Suc (length (takeWhile (\<lambda>s. snippet_id s \<noteq> ident) snippets))) snippets \<and>
               length (remove1 x snippets) + 1 = length snippets))"
proof (rule conjI; rule impI)
  assume "find (\<lambda>s. snippet_id s = ident) snippets = None"
  with assms(1) have "delete st ident = Inr (False, st)"
    by (rule delete_not_found)
  then show "delete st ident = Inr (False, st) \<and> getAll st = Inr snippets"
    by (simp add: getAll_def assms(1))
next
  assume a: "find (\<lambda>s. snippet_id s = ident) snippets = Some x \<and> mkdir_error st = None \<and>
            writeFile_error st = None"
  then have f: "find (\<lambda>s. snippet_id s = ident) snippets = Some x" by simp
  let ?st = "st\<lparr>dataFile := Inr (Json (map toJSON (remove1 x snippets)))\<rparr>"
  have r: "filter (\<lambda>s. snippet_id s \<noteq> ident) snippets = remove1 x snippets"
    using assms(2) f by (rule filter_neq_remove1)
  have "delete st ident = Inr (True, ?st)"
    using delete_found [OF assms(1), of ident] a by (simp add: r)
  moreover have "getAll ?st = Inr (map toJSON (remove1 x snippets))"
    by (simp add: getAll_def readJSONFile_Json)
  moreover have "remove1 x snippets =
      take (length (takeWhile (\<lambda>s. snippet_id s \<noteq> ident) snippets)) snippets @
      drop (Suc (length (takeWhile (\<lambda>s. snippet_id s \<noteq> ident) snippets))) snippets"
    using remove1_first_match [OF f] by simp
  moreover have "length (remove1 x snippets) + 1 = length snippets"
    using f by (rule find_Some_length_remove1)
  ultimately show "delete st ident =
                 Inr (True, st\<lparr>dataFile := Inr (Json (map toJSON (remove1 x snippets)))\<rparr>) \<and>
               getAll (st\<lparr>dataFile := Inr (Json (map toJSON (remove1 x snippets)))\<rparr>) =
                 Inr (map toJSON (remove1 x snippets)) \<and>
               remove1 x snippets =
                 take (length (takeWhile (\<lambda>s. snippet_id s \<noteq> ident) snippets)) snippets @
                 drop (Suc (length (takeWhile (\<lambda>s. snippet_id s \<noteq> ident) snippets))) snippets \<and>
               length (remove1 x snippets) + 1 = length snippets"
    by blast
qed

theorem delete_removes_first_witness:
  "readJSONFile (store_of [stored_snippet ''a'' ''First'' [] 1, stored_snippet ''b'' ''Second'' [] 2,
                           stored_snippet ''c'' ''Third'' [] 3]) =
     Inr [stored_snippet ''a'' ''First'' [] 1, stored_snippet ''b'' ''Second'' [] 2,
          stored_snippet ''c'' ''Third'' [] 3] \<and>
   distinct (map snippet_id [stored_snippet ''a'' ''First'' [] 1, stored_snippet ''b'' ''Second'' [] 2,
                             stored_snippet ''c'' ''Third'' [] 3]) \<and>
   find (\<lambda>s. snippet_id s = ''b'')
     [stored_snippet ''a'' ''First'' [] 1, stored_snippet ''b'' ''Second'' [] 2,
      stored_snippet ''c'' ''Third'' [] 3] = Some (stored_snippet ''b'' ''Second'' [] 2) \<and>
   find (\<lambda>s. snippet_id s = ''zzz'')
     [stored_snippet ''a'' ''First'' [] 1, stored_snippet ''b'' ''Second'' [] 2,
      stored_snippet ''c'' ''Third'' [] 3] = None \<and>
   mkdir_error (store_of [stored_snippet ''a'' ''First'' [] 1, stored_snippet ''b'' ''Second'' [] 2,
                          stored_snippet ''c'' ''Third'' [] 3]) = None \<and>
   writeFile_error (store_of [stored_snippet ''a'' ''First'' [] 1, stored_snippet ''b'' ''Second'' [] 2,
                              stored_snippet ''c'' ''Third'' [] 3]) = None \<and>
   delete (store_of [stored_snippet ''a'' ''First'' [] 1, stored_snippet ''b'' ''Second'' [] 2,
                     stored_snippet ''c'' ''Third'' [] 3]) ''b'' =
     Inr (True, store_of [stored_snippet ''a'' ''First'' [] 1, stored_snippet ''c'' ''Third'' [] 3]) \<and>
   getAll (store_of [stored_snippet ''a'' ''First'' [] 1, stored_snippet ''c'' ''Third'' [] 3]) =
     Inr [stored_snippet ''a'' ''First'' [] 1, stored_snippet ''c'' ''Third'' [] 3] \<and>
   delete (store_of [stored_snippet ''a'' ''First'' [] 1, stored_snippet ''b'' ''Second'' [] 2,
                     stored_snippet ''c'' ''Third'' [] 3]) ''zzz'' =
     Inr (False, store_of [stored_snippet ''a'' ''First'' [] 1, stored_snippet ''b'' ''Second'' [] 2,
                           stored_snippet ''c'' ''Third'' [] 3])"
proof -
  let ?xs = "[stored_snippet ''a'' ''First'' [] 1, stored_snippet ''b'' ''Second'' [] 2,
              stored_snippet ''c'' ''Third'' [] 3]"
  have r: "readJSONFile (store_of ?xs) = Inr ?xs"
    by (simp add: readJSONFile_def store_of_def)
  have i: "snippet_id (stored_snippet u ttl tgs t) = u" for u ttl tgs t
    by (simp add: stored_snippet_def)
  have j: "toJSON (stored_snippet u ttl tgs t) = stored_snippet u ttl tgs t" for u ttl tgs t
    by (simp add: stored_snippet_def toJSON_def)
  have e: "stored_snippet ''b'' ''Second'' [] 2 \<noteq> stored_snippet ''a'' ''First'' [] 1"
    by (simp add: stored_snippet_def)
  have d: "distinct (map snippet_id ?xs)"
    by (simp add: i)
  have m: "mkdir_error (store_of ?xs) = None" "writeFile_error (store_of ?xs) = None"
    by (simp_all add: store_of_def)
  have s: "(store_of ?xs)\<lparr>dataFile := Inr (Json ys)\<rparr> = store_of ys" for ys
    by (simp add: store_of_def)
  have fb: "find (\<lambda>s. snippet_id s = ''b'') ?xs = Some (stored_snippet ''b'' ''Second'' [] 2)"
    and fz: "find (\<lambda>s. snippet_id s = ''zzz'') ?xs = None"
    by (simp_all add: i)
  from delete_removes_first [OF r d, of "''b''" "stored_snippet ''b'' ''Second'' [] 2"] fb m
  have "delete (store_of ?xs) ''b'' =
      Inr (True, (store_of ?xs)\<lparr>dataFile :=
        Inr (Json (map toJSON (remove1 (stored_snippet ''b'' ''Second'' [] 2) ?xs)))\<rparr>) \<and>
    getAll ((store_of ?xs)\<lparr>dataFile :=
        Inr (Json (map toJSON (remove1 (stored_snippet ''b'' ''Second'' [] 2) ?xs)))\<rparr>) =
      Inr (map toJSON (remove1 (stored_snippet ''b'' ''Second'' [] 2) ?xs))"
    by blast
  then have "delete (store_of ?xs) ''b'' =
      Inr (True, store_of [stored_snippet ''a'' ''First'' [] 1, stored_snippet ''c'' ''Third'' [] 3]) \<and>
    getAll (store_of [stored_snippet ''a'' ''First'' [] 1, stored_snippet ''c'' ''Third'' [] 3]) =
      Inr [stored_snippet ''a'' ''First'' [] 1, stored_snippet ''c'' ''Third'' [] 3]"
    by (simp add: j e s)
  moreover from delete_removes_first [OF r d, of "''zzz''" "stored_snippet ''b'' ''Second'' [] 2"] fz
  have "delete (store_of ?xs) ''zzz'' = Inr (False, store_of ?xs)"
    by simp
  ultimately show ?thesis using r d fb fz m by simp
qed

section \<open>update\<close>

lemma findIndex_takeWhile:
  "findIndex P xs =
     (if find P xs = None then - 1 else int (length (takeWhile (\<lambda>x. \<not> P x) xs)))"
proof (induction xs)
  case Nil
  then show ?case by simp
next
  case (Cons x xs)
  then show ?case by (simp add: Let_def)
qed

lemma find_takeWhile:
  "find P xs = Some x \<Longrightarrow>
   length (takeWhile (\<lambda>x. \<not> P x) xs) < length xs \<and> xs ! length (takeWhile (\<lambda>x. \<not> P x) xs) = x"
  by (induction xs) (auto split: if_splits)

lemma update_not_found:
  assumes "readJSONFile st = Inr snippets" and "find (\<lambda>s. snippet_id s = ident) snippets = None"
  shows "update st now ident input = Inr (None, st)"
  using assms by (simp add: update_def findIndex_takeWhile at_index_def)

lemma update_found:
  assumes "readJSONFile st = Inr snippets"
      and "find (\<lambda>s. snippet_id s = ident) snippets = Some orig"
      and "mkdir_error st = None" and "writeFile_error st = None"
  shows "update st now ident input =
     Inr (Some (updatedSnippet orig input now),
          st\<lparr>dataFile := Inr (Json (map toJSON
            (snippets[length (takeWhile (\<lambda>s. snippet_id s \<noteq> ident) snippets) :=
               updatedSnippet orig input now])))\<rparr>)"
proof -
  let ?i = "length (takeWhile (\<lambda>s. snippet_id s \<noteq> ident) snippets)"
  have ix: "findIndex (\<lambda>s. snippet_id s = ident) snippets = int ?i"
    using assms(2) by (simp add: findIndex_takeWhile)
  from find_takeWhile [OF assms(2)] have "?i < length snippets" "snippets ! ?i = orig"
    by simp_all
  then have "at_index snippets (int ?i) = Some orig"
    by (simp add: at_index_def)
  then show ?thesis
    using assms(1,3,4) by (simp add: update_def ix writeJSONFile_ok)
qed

text \<open>
  C7. If no record has the identifier, \<^verbatim>\<open>update\<close> returns the not-found value and
  leaves the store as it is. If \<open>orig\<close> is the first record with the identifier and the
  file can be written, \<^verbatim>\<open>update\<close> returns a record \<open>u\<close> with the identifier and the
  \<^verbatim>\<open>createdAt\<close> of \<open>orig\<close>, with \<^verbatim>\<open>updatedAt\<close> the reading of the clock, and with
  every other field taken from the input where the input has it and from \<open>orig\<close> where
  it has not; the file then holds the collection with \<open>u\<close> at the position of \<open>orig\<close>.
\<close>

theorem update_partial:
  assumes "readJSONFile st = Inr snippets"
  shows "(find (\<lambda>s. snippet_id s = ident) snippets = None \<longrightarrow>
            update st now ident input = Inr (None, st)) \<and>
         (find (\<lambda>s. snippet_id s = ident) snippets = Some orig \<and> mkdir_error st = None \<and>
            writeFile_error st = None \<longrightarrow>
            (\<exists>u i. update st now ident input =
                      Inr (Some u, st\<lparr>dataFile := Inr (Json (map toJSON (snippets[i := u])))\<rparr>) \<and>
                    i = length (takeWhile (\<lambda>s. snippet_id s \<noteq> ident) snippets) \<and>
                    i < length snippets \<and> snippets ! i = orig \<and>
                    snippet_id u = ident \<and> snippet_id u = snippet_id orig \<and>
                    createdAt u = createdAt orig \<and> updatedAt u = DateObj now \<and>
                    title u = (case u_title input of Some v \<Rightarrow> v | None \<Rightarrow> title orig) \<and>
                    description u =
                      (case u_description input of Some v \<Rightarrow> v | None \<Rightarrow> description orig) \<and>
                    code u = (case u_code input of Some v \<Rightarrow> v | None \<Rightarrow> code orig) \<and>
                    language u = (case u_language input of Some v \<Rightarrow> v | None \<Rightarrow> language orig) \<and>
                    category u = (case u_category input of Some v \<Rightarrow> v | None \<Rightarrow> category orig) \<and>
                    tags u = (case u_tags input of Some v \<Rightarrow> v | None \<Rightarrow> tags orig) \<and>
                    favorite u = (case u_favorite input of Some v \<Rightarrow> v | None \<Rightarrow> favorite orig)))"
proof (intro conjI impI)
  assume "find (\<lambda>s. snippet_id s = ident) snippets = None"
  with assms show "update st now ident input = Inr (None, st)"
    by (rule update_not_found)
next
  assume a: "find (\<lambda>s. snippet_id s = ident) snippets = Some orig \<and> mkdir_error st = None \<and>
            writeFile_error st = None"
  let ?u = "updatedSnippet orig input now"
  let ?i = "length (takeWhile (\<lambda>s. snippet_id s \<noteq> ident) snippets)"
  from a have f: "find (\<lambda>s. snippet_id s = ident) snippets = Some orig" by simp
  have u: "update st now ident input =
      Inr (Some ?u, st\<lparr>dataFile := Inr (Json (map toJSON (snippets[?i := ?u])))\<rparr>)"
    using assms a by (intro update_found) simp_all
  have p: "?i < length snippets \<and> snippets ! ?i = orig"
    using find_takeWhile [OF f] by simp
  have "snippet_id orig = ident"
    using f by (auto simp add: find_Some_iff)
  then have fields: "snippet_id ?u = ident \<and> snippet_id ?u = snippet_id orig \<and>
                    createdAt ?u = createdAt orig \<and> updatedAt ?u = DateObj now \<and>
                    title ?u = (case u_title input of Some v \<Rightarrow> v | None \<Rightarrow> title orig) \<and>
                    description ?u =
                      (case u_description input of Some v \<Rightarrow> v | None \<Rightarrow> description orig) \<and>
                    code ?u = (case u_code input of Some v \<Rightarrow> v | None \<Rightarrow> code orig) \<and>
                    language ?u = (case u_language input of Some v \<Rightarrow> v | None \<Rightarrow> language orig) \<and>
                    category ?u = (case u_category input of Some v \<Rightarrow> v | None \<Rightarrow> category orig) \<and>
                    tags ?u = (case u_tags input of Some v \<Rightarrow> v | None \<Rightarrow> tags orig) \<and>
                    favorite ?u = (case u_favorite input of Some v \<Rightarrow> v | None \<Rightarrow> favorite orig)"
    by (simp add: updatedSnippet_def)
  from u p fields show "\<exists>u i. update st now ident input =
                      Inr (Some u, st\<lparr>dataFile := Inr (Json (map toJSON (snippets[i := u])))\<rparr>) \<and>
                    i = length (takeWhile (\<lambda>s. snippet_id s \<noteq> ident) snippets) \<and>
                    i < length snippets \<and> snippets ! i = orig \<and>
                    snippet_id u = ident \<and> snippet_id u = snippet_id orig \<and>
                    createdAt u = createdAt orig \<and> updatedAt u = DateObj now \<and>
                    title u = (case u_title input of Some v \<Rightarrow> v | None \<Rightarrow> title orig) \<and>
                    description u =
                      (case u_description input of Some v \<Rightarrow> v | None \<Rightarrow> description orig) \<and>
                    code u = (case u_code input of Some v \<Rightarrow> v | None \<Rightarrow> code orig) \<and>
                    language u = (case u_language input of Some v \<Rightarrow> v | None \<Rightarrow> language orig) \<and>
                    category u = (case u_category input of Some v \<Rightarrow> v | None \<Rightarrow> category orig) \<and>
                    tags u = (case u_tags input of Some v \<Rightarrow> v | None \<Rightarrow> tags orig) \<and>
                    favorite u = (case u_favorite input of Some v \<Rightarrow> v | None \<Rightarrow> favorite orig)"
    by blast
qed

theorem update_partial_witness:
  "readJSONFile (store_of [stored_snippet ''a'' ''First'' [''x''] 1,
                           stored_snippet ''b'' ''Partial Update'' [''y''] 2]) =
     Inr [stored_snippet ''a'' ''First'' [''x''] 1, stored_snippet ''b'' ''Partial Update'' [''y''] 2] \<and>
   find (\<lambda>s. snippet_id s = ''zzz'')
     [stored_snippet ''a'' ''First'' [''x''] 1, stored_snippet ''b'' ''Partial Update'' [''y''] 2] = None \<and>
   find (\<lambda>s. snippet_id s = ''b'')
     [stored_snippet ''a'' ''First'' [''x''] 1, stored_snippet ''b'' ''Partial Update'' [''y''] 2] =
     Some (stored_snippet ''b'' ''Partial Update'' [''y''] 2) \<and>
   mkdir_error (store_of [stored_snippet ''a'' ''First'' [''x''] 1,
                          stored_snippet ''b'' ''Partial Update'' [''y''] 2]) = None \<and>
   writeFile_error (store_of [stored_snippet ''a'' ''First'' [''x''] 1,
                              stored_snippet ''b'' ''Partial Update'' [''y''] 2]) = None \<and>
   update (store_of [stored_snippet ''a'' ''First'' [''x''] 1,
                     stored_snippet ''b'' ''Partial Update'' [''y''] 2]) 2000 ''zzz''
     \<lparr>u_title = None, u_description = Some ''After update'', u_code = None, u_language = None,
      u_category = None, u_tags = Some [''updated'', ''partial''], u_favorite = None\<rparr> =
     Inr (None, store_of [stored_snippet ''a'' ''First'' [''x''] 1,
                          stored_snippet ''b'' ''Partial Update'' [''y''] 2]) \<and>
   (\<exists>u. update (store_of [stored_snippet ''a'' ''First'' [''x''] 1,
                          stored_snippet ''b'' ''Partial Update'' [''y''] 2]) 2000 ''b''
          \<lparr>u_title = None, u_description = Some ''After update'', u_code = None, u_language = None,
           u_category = None, u_tags = Some [''updated'', ''partial''], u_favorite = None\<rparr> =
          Inr (Some u, store_of [stored_snippet ''a'' ''First'' [''x''] 1, toJSON u]) \<and>
        snippet_id u = ''b'' \<and> title u = ''Partial Update'' \<and> description u = ''After update'' \<and>
        tags u = [''updated'', ''partial''] \<and> createdAt u = IsoString 2 \<and>
        updatedAt u = DateObj 2000)"
proof -
  let ?xs = "[stored_snippet ''a'' ''First'' [''x''] 1, stored_snippet ''b'' ''Partial Update'' [''y''] 2]"
  let ?inp = "\<lparr>u_title = None, u_description = Some ''After update'', u_code = None,
      u_language = None, u_category = None, u_tags = Some [''updated'', ''partial''],
      u_favorite = None\<rparr>"
  have r: "readJSONFile (store_of ?xs) = Inr ?xs"
    by (simp add: readJSONFile_def store_of_def)
  have i: "snippet_id (stored_snippet u ttl tgs t) = u"
    and f: "title (stored_snippet u ttl tgs t) = ttl" "createdAt (stored_snippet u ttl tgs t) = IsoString t"
    and j: "toJSON (stored_snippet u ttl tgs t) = stored_snippet u ttl tgs t" for u ttl tgs t
    by (simp_all add: stored_snippet_def toJSON_def)
  have m: "mkdir_error (store_of ?xs) = None" "writeFile_error (store_of ?xs) = None"
          "(store_of ?xs)\<lparr>dataFile := Inr (Json ys)\<rparr> = store_of ys" for ys
    by (simp_all add: store_of_def)
  have n: "find (\<lambda>s. snippet_id s = ''zzz'') ?xs = None"
    and b: "find (\<lambda>s. snippet_id s = ''b'') ?xs = Some (stored_snippet ''b'' ''Partial Update'' [''y''] 2)"
    by (simp_all add: i)
  from update_partial [OF r, of "''zzz''" 2000 ?inp "stored_snippet ''b'' ''Partial Update'' [''y''] 2"] n
  have z: "update (store_of ?xs) 2000 ''zzz'' ?inp = Inr (None, store_of ?xs)"
    by simp
  from update_partial [OF r, of "''b''" 2000 ?inp "stored_snippet ''b'' ''Partial Update'' [''y''] 2"] b m
  have "\<exists>u. update (store_of ?xs) 2000 ''b'' ?inp =
          Inr (Some u, store_of [stored_snippet ''a'' ''First'' [''x''] 1, toJSON u]) \<and>
        snippet_id u = ''b'' \<and> title u = ''Partial Update'' \<and> description u = ''After update'' \<and>
        tags u = [''updated'', ''partial''] \<and> createdAt u = IsoString 2 \<and>
        updatedAt u = DateObj 2000"
    by (simp add: i f j) blast
  with z r n b m show ?thesis by simp
qed

section \<open>sortSnippets\<close>

lemma set_insert_by: "set (insert_by cmp x ys) = insert x (set ys)"
  by (induction ys) auto

lemma mset_insert_by: "mset (insert_by cmp x ys) = add_mset x (mset ys)"
  by (induction ys) simp_all

lemma mset_sort_by: "mset (sort_by cmp xs) = mset xs"
  by (induction xs) (simp_all add: mset_insert_by)

lemma sorted_insert_by:
  assumes total: "\<And>a b. cmp a b \<le> 0 \<or> cmp b a \<le> 0"
      and trans: "\<And>a b c. cmp a b \<le> 0 \<Longrightarrow> cmp b c \<le> 0 \<Longrightarrow> cmp a c \<le> 0"
      and "sorted_wrt (\<lambda>a b. cmp a b \<le> 0) ys"
  shows "sorted_wrt (\<lambda>a b. cmp a b \<le> 0) (insert_by cmp x ys)"
  using assms(3)
proof (induction ys)
  case Nil
  then show ?case by simp
next
  case (Cons y ys)
  show ?case
  proof (cases "cmp x y \<le> 0")
    case True
    then have "\<forall>z \<in> set ys. cmp x z \<le> 0"
      using Cons.prems trans by auto
    with True Cons.prems show ?thesis by simp
  next
    case False
    then have "cmp y x \<le> 0" using total [of x y] by simp
    with False Cons show ?thesis by (simp add: set_insert_by)
  qed
qed

lemma sorted_sort_by:
  assumes "\<And>a b. cmp a b \<le> 0 \<or> cmp b a \<le> 0"
      and "\<And>a b c. cmp a b \<le> 0 \<Longrightarrow> cmp b c \<le> 0 \<Longrightarrow> cmp a c \<le> 0"
  shows "sorted_wrt (\<lambda>a b. cmp a b \<le> 0) (sort_by cmp xs)"
proof (induction xs)
  case Nil
  then show ?case by simp
next
  case (Cons x xs)
  then show ?case using sorted_insert_by [of cmp "sort_by cmp xs" x] assms by simp
qed

lemma filter_insert_by:
  assumes "\<And>y. P x \<Longrightarrow> P y \<Longrightarrow> cmp x y \<le> 0"
  shows "filter P (insert_by cmp x ys) = (if P x then x # filter P ys else filter P ys)"
  using assms by (induction ys) auto

lemma filter_sort_by:
  assumes "\<And>x y. P x \<Longrightarrow> P y \<Longrightarrow> cmp x y \<le> 0"
  shows "filter P (sort_by cmp xs) = filter P xs"
proof (induction xs)
  case Nil
  then show ?case by simp
next
  case (Cons x xs)
  then show ?case using assms by (simp add: filter_insert_by)
qed

text \<open>
  On a comparator that agrees with a key into a linear order, the model of
  \<^verbatim>\<open>Array.prototype.sort\<close> is the stable sort of the library.
\<close>

lemma insert_by_insort_key:
  assumes "\<And>a b. cmp a b \<le> 0 \<longleftrightarrow> k a \<le> k b"
  shows "insert_by cmp x ys = insort_key k x ys"
  by (induction ys) (simp_all add: assms)

lemma sort_by_sort_key:
  assumes "\<And>a b. cmp a b \<le> 0 \<longleftrightarrow> k a \<le> k b"
  shows "sort_by cmp xs = sort_key k xs"
  by (induction xs) (simp_all add: insert_by_insort_key [OF assms])

lemma js_less_irrefl: "\<not> js_less v v"
  by (cases v) simp_all

lemma js_less_asym: "js_less v w \<Longrightarrow> \<not> js_less w v"
  by (cases v; cases w) simp_all

lemma compareSnippets_le:
  "compareSnippets srt a b \<le> 0 \<longleftrightarrow>
     (if order srt = Asc then \<not> js_less (sort_val (field srt) b) (sort_val (field srt) a)
      else \<not> js_less (sort_val (field srt) a) (sort_val (field srt) b))"
  using js_less_asym [of "sort_val (field srt) a" "sort_val (field srt) b"]
  by (auto simp add: compareSnippets_def Let_def)

lemma sort_val_trans:
  "\<not> js_less (sort_val fld b) (sort_val fld a) \<Longrightarrow> \<not> js_less (sort_val fld c) (sort_val fld b) \<Longrightarrow>
   \<not> js_less (sort_val fld c) (sort_val fld a)"
  by (cases fld) auto

lemma sort_val_total:
  "\<not> js_less (sort_val fld b) (sort_val fld a) \<or> \<not> js_less (sort_val fld a) (sort_val fld b)"
  using js_less_asym by blast

lemma compareSnippets_total: "compareSnippets srt a b \<le> 0 \<or> compareSnippets srt b a \<le> 0"
  using sort_val_total [of "field srt" a b] by (auto simp add: compareSnippets_le)

lemma compareSnippets_trans:
  assumes "compareSnippets srt a b \<le> 0" and "compareSnippets srt b c \<le> 0"
  shows "compareSnippets srt a c \<le> 0"
proof (cases "order srt = Asc")
  case True
  with assms have "\<not> js_less (sort_val (field srt) b) (sort_val (field srt) a)"
    and "\<not> js_less (sort_val (field srt) c) (sort_val (field srt) b)"
    by (simp_all add: compareSnippets_le)
  then have "\<not> js_less (sort_val (field srt) c) (sort_val (field srt) a)"
    by (rule sort_val_trans)
  with True show ?thesis by (simp add: compareSnippets_le)
next
  case False
  with assms have "\<not> js_less (sort_val (field srt) b) (sort_val (field srt) c)"
    and "\<not> js_less (sort_val (field srt) a) (sort_val (field srt) b)"
    by (simp_all add: compareSnippets_le)
  then have "\<not> js_less (sort_val (field srt) a) (sort_val (field srt) c)"
    by (rule sort_val_trans)
  with False show ?thesis by (simp add: compareSnippets_le)
qed

lemma compareSnippets_equal_keys:
  "sort_val (field srt) a = sort_val (field srt) b \<Longrightarrow> compareSnippets srt a b = 0"
  by (simp add: compareSnippets_def Let_def js_less_irrefl)

lemma sortSnippets_sorted:
  "sorted_wrt (\<lambda>a b. compareSnippets srt a b \<le> 0) (sortSnippets xs srt)"
  unfolding sortSnippets_def
  by (rule sorted_sort_by) (rule compareSnippets_total, erule (1) compareSnippets_trans)

lemma sortSnippets_stable:
  "filter (\<lambda>s. sort_val (field srt) s = k) (sortSnippets xs srt) =
   filter (\<lambda>s. sort_val (field srt) s = k) xs"
  unfolding sortSnippets_def
  by (rule filter_sort_by) (simp add: compareSnippets_equal_keys)

lemma compareSnippets_desc:
  "compareSnippets \<lparr>field = fld, order = Desc\<rparr> a b = - compareSnippets \<lparr>field = fld, order = Asc\<rparr> a b"
  by (simp add: compareSnippets_def Let_def)

lemma compareSnippets_asc:
  "compareSnippets \<lparr>field = Title, order = Asc\<rparr> a b =
     (if toLowerCase (title a) < toLowerCase (title b) then - 1
      else if toLowerCase (title b) < toLowerCase (title a) then 1 else 0)"
  "compareSnippets \<lparr>field = Language, order = Asc\<rparr> a b =
     (if toLowerCase (language a) < toLowerCase (language b) then - 1
      else if toLowerCase (language b) < toLowerCase (language a) then 1 else 0)"
  "compareSnippets \<lparr>field = Category, order = Asc\<rparr> a b =
     (if toLowerCase (category a) < toLowerCase (category b) then - 1
      else if toLowerCase (category b) < toLowerCase (category a) then 1 else 0)"
  "compareSnippets \<lparr>field = Favorite, order = Asc\<rparr> a b =
     (if \<not> favorite a \<and> favorite b then - 1 else if favorite a \<and> \<not> favorite b then 1 else 0)"
  "compareSnippets \<lparr>field = CreatedAt, order = Asc\<rparr> a b =
     (if getTime (createdAt a) < getTime (createdAt b) then - 1
      else if getTime (createdAt b) < getTime (createdAt a) then 1 else 0)"
  "compareSnippets \<lparr>field = UpdatedAt, order = Asc\<rparr> a b =
     (if getTime (updatedAt a) < getTime (updatedAt b) then - 1
      else if getTime (updatedAt b) < getTime (updatedAt a) then 1 else 0)"
  by (simp_all add: compareSnippets_def Let_def)

lemma sortSnippets_title_asc:
  "sortSnippets xs \<lparr>field = Title, order = Asc\<rparr> = sort_key (\<lambda>s. toLowerCase (title s)) xs"
  unfolding sortSnippets_def
  by (rule sort_by_sort_key) (auto simp add: compareSnippets_asc)

lemma sortSnippets_createdAt_asc:
  "sortSnippets xs \<lparr>field = CreatedAt, order = Asc\<rparr> = sort_key (\<lambda>s. getTime (createdAt s)) xs"
  unfolding sortSnippets_def
  by (rule sort_by_sort_key) (auto simp add: compareSnippets_asc)

lemma filter_sorted:
  assumes "readJSONFile st = Inr snippets" and "sortBy f = Some fld"
  shows "filter_snippets st f =
     Inr (sortSnippets (filter (keep f) snippets)
            \<lparr>field = fld, order = (case sortOrder f of Some ord \<Rightarrow> ord | None \<Rightarrow> Asc)\<rparr>)"
  using assms by (simp add: filter_snippets_def)

lemma lower_samples:
  "toLowerCase ''Zebra'' = ''zebra''" "toLowerCase ''Apple'' = ''apple''"
  "toLowerCase ''Mango'' = ''mango''" "toLowerCase ''Banana'' = ''banana''"
  "toLowerCase ''apple'' = ''apple''"
  by (simp_all add: toLowerCase_def lower_char_def char_of_eq_iff)

lemma less_samples:
  "''apple'' < ''mango''" "''mango'' < ''zebra''" "''apple'' < ''zebra''" "''apple'' < ''banana''"
  "''Banana'' < ''apple''"
  by (simp_all add: less_char_def)

lemma toJSON_fields:
  "snippet_id (toJSON s) = snippet_id s" "title (toJSON s) = title s"
  "description (toJSON s) = description s" "code (toJSON s) = code s"
  "language (toJSON s) = language s" "category (toJSON s) = category s"
  "tags (toJSON s) = tags s" "favorite (toJSON s) = favorite s"
  "getTime (createdAt (toJSON s)) = getTime (createdAt s)"
  "getTime (updatedAt (toJSON s)) = getTime (updatedAt s)"
  by (simp_all add: toJSON_def)

lemma keep_sort_only: "keep (no_criteria\<lparr>sortBy := sb, sortOrder := so\<rparr>) s"
  by (simp add: keep_def no_criteria_def)

lemma three_adds:
  assumes "readJSONFile st = Inr []" and "mkdir_error st = None" and "writeFile_error st = None"
  shows "\<exists>st'. add_all st [(u1, t1, t1', x1), (u2, t2, t2', x2), (u3, t3, t3', x3)] =
           Inr ([newSnippet u1 t1 t1' x1, newSnippet u2 t2 t2' x2, newSnippet u3 t3 t3' x3], st') \<and>
         readJSONFile st' =
           Inr [toJSON (newSnippet u1 t1 t1' x1), toJSON (newSnippet u2 t2 t2' x2),
                toJSON (newSnippet u3 t3 t3' x3)]"
  using add_all_ok [OF assms, of "[(u1, t1, t1', x1), (u2, t2, t2', x2), (u3, t3, t3', x3)]"]
  by (simp add: mk_step_def del: add_all.simps)

lemma sort_three_titles:
  assumes "title a = ''Zebra''" and "title b = ''Apple''" and "title c = ''Mango''"
  shows "sortSnippets [a, b, c] \<lparr>field = Title, order = Asc\<rparr> = [b, c, a]"
  using assms
  by (simp add: sortSnippets_def compareSnippets_asc lower_samples less_char_def)

lemma sort_three_times:
  assumes "getTime (createdAt a) < getTime (createdAt b)"
      and "getTime (createdAt b) < getTime (createdAt c)"
  shows "sortSnippets [a, b, c] \<lparr>field = CreatedAt, order = Desc\<rparr> = [c, b, a]"
  using assms
  by (simp add: sortSnippets_def compareSnippets_desc compareSnippets_asc)

text \<open>
  C8. The comparator of \<^verbatim>\<open>sortSnippets\<close> orders the string fields by their lower-cased
  values in the lexicographic order of strings, \<^verbatim>\<open>favorite\<close> with false before true,
  and the timestamps by their instants; for descending order it returns the negation of
  what it returns for ascending order. The result of \<^verbatim>\<open>sortSnippets\<close> is ordered by
  the comparator, is a rearrangement of its input, and keeps the records of equal key in
  their order; \<^verbatim>\<open>filter\<close> with \<^verbatim>\<open>sortBy\<close> returns the filtered records sorted so,
  ascending when \<^verbatim>\<open>sortOrder\<close> is absent. After three adds on an empty store with
  the titles Zebra, Apple, Mango and increasing creation times, sorting by title
  ascending gives Apple, Mango, Zebra and sorting by \<^verbatim>\<open>createdAt\<close> descending gives
  Mango, Apple, Zebra.
\<close>

theorem sorting_rules:
  "compareSnippets \<lparr>field = Title, order = Asc\<rparr> a b =
     (if toLowerCase (title a) < toLowerCase (title b) then - 1
      else if toLowerCase (title b) < toLowerCase (title a) then 1 else 0) \<and>
   compareSnippets \<lparr>field = Language, order = Asc\<rparr> a b =
     (if toLowerCase (language a) < toLowerCase (language b) then - 1
      else if toLowerCase (language b) < toLowerCase (language a) then 1 else 0) \<and>
   compareSnippets \<lparr>field = Category, order = Asc\<rparr> a b =
     (if toLowerCase (category a) < toLowerCase (category b) then - 1
      else if toLowerCase (category b) < toLowerCase (category a) then 1 else 0) \<and>
   compareSnippets \<lparr>field = Favorite, order = Asc\<rparr> a b =
     (if \<not> favorite a \<and> favorite b then - 1 else if favorite a \<and> \<not> favorite b then 1 else 0) \<and>
   compareSnippets \<lparr>field = CreatedAt, order = Asc\<rparr> a b =
     (if getTime (createdAt a) < getTime (createdAt b) then - 1
      else if getTime (createdAt b) < getTime (createdAt a) then 1 else 0) \<and>
   compareSnippets \<lparr>field = UpdatedAt, order = Asc\<rparr> a b =
     (if getTime (updatedAt a) < getTime (updatedAt b) then - 1
      else if getTime (updatedAt b) < getTime (updatedAt a) then 1 else 0) \<and>
   compareSnippets \<lparr>field = fld, order = Desc\<rparr> a b =
     - compareSnippets \<lparr>field = fld, order = Asc\<rparr> a b \<and>
   sorted_wrt (\<lambda>a b. compareSnippets srt a b \<le> 0) (sortSnippets xs srt) \<and>
   mset (sortSnippets xs srt) = mset xs \<and>
   filter (\<lambda>s. sort_val (field srt) s = k) (sortSnippets xs srt) =
     filter (\<lambda>s. sort_val (field srt) s = k) xs \<and>
   (readJSONFile st = Inr snippets \<and> sortBy f = Some fld \<longrightarrow>
      filter_snippets st f =
        Inr (sortSnippets (filter (keep f) snippets)
               \<lparr>field = fld, order = (case sortOrder f of Some ord \<Rightarrow> ord | None \<Rightarrow> Asc)\<rparr>)) \<and>
   (readJSONFile st0 = Inr [] \<and> mkdir_error st0 = None \<and> writeFile_error st0 = None \<and>
    c_title x1 = ''Zebra'' \<and> c_title x2 = ''Apple'' \<and> c_title x3 = ''Mango'' \<and>
    t1 < t2 \<and> t2 < t3 \<longrightarrow>
      (\<exists>r1 r2 r3 st'.
         add_all st0 [(u1, t1, t1', x1), (u2, t2, t2', x2), (u3, t3, t3', x3)] =
           Inr ([r1, r2, r3], st') \<and>
         title r1 = ''Zebra'' \<and> title r2 = ''Apple'' \<and> title r3 = ''Mango'' \<and>
         filter_snippets st' (no_criteria\<lparr>sortBy := Some Title, sortOrder := Some Asc\<rparr>) =
           Inr [toJSON r2, toJSON r3, toJSON r1] \<and>
         filter_snippets st' (no_criteria\<lparr>sortBy := Some CreatedAt, sortOrder := Some Desc\<rparr>) =
           Inr [toJSON r3, toJSON r2, toJSON r1]))"
proof -
  have scenario: "\<exists>r1 r2 r3 st'.
         add_all st0 [(u1, t1, t1', x1), (u2, t2, t2', x2), (u3, t3, t3', x3)] =
           Inr ([r1, r2, r3], st') \<and>
         title r1 = ''Zebra'' \<and> title r2 = ''Apple'' \<and> title r3 = ''Mango'' \<and>
         filter_snippets st' (no_criteria\<lparr>sortBy := Some Title, sortOrder := Some Asc\<rparr>) =
           Inr [toJSON r2, toJSON r3, toJSON r1] \<and>
         filter_snippets st' (no_criteria\<lparr>sortBy := Some CreatedAt, sortOrder := Some Desc\<rparr>) =
           Inr [toJSON r3, toJSON r2, toJSON r1]"
    if h: "readJSONFile st0 = Inr [] \<and> mkdir_error st0 = None \<and> writeFile_error st0 = None \<and>
           c_title x1 = ''Zebra'' \<and> c_title x2 = ''Apple'' \<and> c_title x3 = ''Mango'' \<and>
           t1 < t2 \<and> t2 < t3"
  proof -
    let ?r1 = "newSnippet u1 t1 t1' x1" and ?r2 = "newSnippet u2 t2 t2' x2"
      and ?r3 = "newSnippet u3 t3 t3' x3"
    from h three_adds [of st0 u1 t1 t1' x1 u2 t2 t2' x2 u3 t3 t3' x3] obtain st' where
      a: "add_all st0 [(u1, t1, t1', x1), (u2, t2, t2', x2), (u3, t3, t3', x3)] =
            Inr ([?r1, ?r2, ?r3], st')" and
      rd: "readJSONFile st' = Inr [toJSON ?r1, toJSON ?r2, toJSON ?r3]"
      by blast
    have t: "title ?r1 = ''Zebra''" "title ?r2 = ''Apple''" "title ?r3 = ''Mango''"
      using h by (simp_all add: newSnippet_fields)
    have "filter_snippets st' (no_criteria\<lparr>sortBy := Some Title, sortOrder := Some Asc\<rparr>) =
        Inr (sortSnippets [toJSON ?r1, toJSON ?r2, toJSON ?r3] \<lparr>field = Title, order = Asc\<rparr>)"
      using filter_sorted [OF rd, of "no_criteria\<lparr>sortBy := Some Title, sortOrder := Some Asc\<rparr>" Title]
      by (simp add: keep_sort_only)
    then have f1: "filter_snippets st' (no_criteria\<lparr>sortBy := Some Title, sortOrder := Some Asc\<rparr>) =
        Inr [toJSON ?r2, toJSON ?r3, toJSON ?r1]"
      using t by (simp add: sort_three_titles toJSON_fields)
    have "filter_snippets st' (no_criteria\<lparr>sortBy := Some CreatedAt, sortOrder := Some Desc\<rparr>) =
        Inr (sortSnippets [toJSON ?r1, toJSON ?r2, toJSON ?r3] \<lparr>field = CreatedAt, order = Desc\<rparr>)"
      using filter_sorted [OF rd, of "no_criteria\<lparr>sortBy := Some CreatedAt, sortOrder := Some Desc\<rparr>" CreatedAt]
      by (simp add: keep_sort_only)
    then have f2: "filter_snippets st' (no_criteria\<lparr>sortBy := Some CreatedAt, sortOrder := Some Desc\<rparr>) =
        Inr [toJSON ?r3, toJSON ?r2, toJSON ?r1]"
      using h by (simp add: sort_three_times toJSON_fields newSnippet_fields)
    from a t f1 f2 show ?thesis by blast
  qed
  show ?thesis
    apply (intro conjI impI)
                apply (rule compareSnippets_asc)+
          apply (rule compareSnippets_desc)
         apply (rule sortSnippets_sorted)
        apply (simp add: sortSnippets_def mset_sort_by)
       apply (rule sortSnippets_stable)
      apply (simp add: filter_sorted)
    apply (erule scenario)
    done
qed

theorem sorting_rules_witness:
  "readJSONFile (store_of [stored_snippet ''1'' ''Banana'' [] 1, stored_snippet ''2'' ''apple'' [] 2,
                           stored_snippet ''3'' ''Apple'' [] 3]) =
     Inr [stored_snippet ''1'' ''Banana'' [] 1, stored_snippet ''2'' ''apple'' [] 2,
          stored_snippet ''3'' ''Apple'' [] 3] \<and>
   sortBy (no_criteria\<lparr>sortBy := Some Title\<rparr>) = Some Title \<and>
   filter_snippets
     (store_of [stored_snippet ''1'' ''Banana'' [] 1, stored_snippet ''2'' ''apple'' [] 2,
                stored_snippet ''3'' ''Apple'' [] 3])
     (no_criteria\<lparr>sortBy := Some Title\<rparr>) =
     Inr [stored_snippet ''2'' ''apple'' [] 2, stored_snippet ''3'' ''Apple'' [] 3,
          stored_snippet ''1'' ''Banana'' [] 1] \<and>
   readJSONFile fresh_store = Inr [] \<and> mkdir_error fresh_store = None \<and>
   writeFile_error fresh_store = None \<and>
   c_title (sample_input ''Zebra'') = ''Zebra'' \<and> c_title (sample_input ''Apple'') = ''Apple'' \<and>
   c_title (sample_input ''Mango'') = ''Mango'' \<and> (1000 :: int) < 1010 \<and> (1010 :: int) < 1020 \<and>
   (\<exists>r1 r2 r3 st'.
      add_all fresh_store
        [(''id-1'', 1000, 1000, sample_input ''Zebra''), (''id-2'', 1010, 1010, sample_input ''Apple''),
         (''id-3'', 1020, 1020, sample_input ''Mango'')] = Inr ([r1, r2, r3], st') \<and>
      title r1 = ''Zebra'' \<and> title r2 = ''Apple'' \<and> title r3 = ''Mango'' \<and>
      filter_snippets st' (no_criteria\<lparr>sortBy := Some Title, sortOrder := Some Asc\<rparr>) =
        Inr [toJSON r2, toJSON r3, toJSON r1] \<and>
      filter_snippets st' (no_criteria\<lparr>sortBy := Some CreatedAt, sortOrder := Some Desc\<rparr>) =
        Inr [toJSON r3, toJSON r2, toJSON r1])"
proof -
  let ?xs = "[stored_snippet ''1'' ''Banana'' [] 1, stored_snippet ''2'' ''apple'' [] 2,
              stored_snippet ''3'' ''Apple'' [] 3]"
  let ?f = "no_criteria\<lparr>sortBy := Some Title\<rparr>"
  have r: "readJSONFile (store_of ?xs) = Inr ?xs"
    by (simp add: readJSONFile_def store_of_def)
  have s: "sortBy ?f = Some Title" "sortOrder ?f = None"
    by (simp_all add: no_criteria_def)
  have k: "filter (keep ?f) ?xs = ?xs"
    by (simp add: keep_def no_criteria_def)
  have t: "title (stored_snippet i ttl tgs tm) = ttl" for i ttl tgs tm
    by (simp add: stored_snippet_def)
  have o: "sortSnippets ?xs \<lparr>field = Title, order = Asc\<rparr> =
      [stored_snippet ''2'' ''apple'' [] 2, stored_snippet ''3'' ''Apple'' [] 3,
       stored_snippet ''1'' ''Banana'' [] 1]"
    by (simp add: sortSnippets_def compareSnippets_asc t lower_samples less_char_def)
  have h: "readJSONFile fresh_store = Inr []" "mkdir_error fresh_store = None"
    "writeFile_error fresh_store = None"
    by (simp_all add: readJSONFile_def read_catch_def fresh_store_def)
  have c: "c_title (sample_input ttl) = ttl" for ttl
    by (simp add: sample_input_def)
  have n: "(1000 :: int) < 1010" "(1010 :: int) < 1020" by simp_all
  from sorting_rules [where st = "store_of ?xs" and snippets = ?xs and f = ?f and fld = Title
      and ?st0.0 = fresh_store and ?x1.0 = "sample_input ''Zebra''"
      and ?x2.0 = "sample_input ''Apple''" and ?x3.0 = "sample_input ''Mango''"
      and ?t1.0 = 1000 and ?t2.0 = 1010 and ?t3.0 = 1020
      and ?u1.0 = "''id-1''" and ?u2.0 = "''id-2''" and ?u3.0 = "''id-3''"
      and t1' = 1000 and t2' = 1010 and t3' = 1020]
  have "filter_snippets (store_of ?xs) ?f =
          Inr (sortSnippets (filter (keep ?f) ?xs) \<lparr>field = Title, order = Asc\<rparr>)"
    and "\<exists>r1 r2 r3 st'.
      add_all fresh_store
        [(''id-1'', 1000, 1000, sample_input ''Zebra''), (''id-2'', 1010, 1010, sample_input ''Apple''),
         (''id-3'', 1020, 1020, sample_input ''Mango'')] = Inr ([r1, r2, r3], st') \<and>
      title r1 = ''Zebra'' \<and> title r2 = ''Apple'' \<and> title r3 = ''Mango'' \<and>
      filter_snippets st' (no_criteria\<lparr>sortBy := Some Title, sortOrder := Some Asc\<rparr>) =
        Inr [toJSON r2, toJSON r3, toJSON r1] \<and>
      filter_snippets st' (no_criteria\<lparr>sortBy := Some CreatedAt, sortOrder := Some Desc\<rparr>) =
        Inr [toJSON r3, toJSON r2, toJSON r1]"
    using r s h c n by simp_all
  then show ?thesis
    using r s h c n by (simp only: k o)
qed

end
